theory Spec2Isabelle
  imports Main "HOL-Library.Sublist" "HOL-Library.Char_ord" "HOL-Library.List_Lexorder"
    "HOL-Library.Product_Lexorder" "HOL-Library.AList"
begin

section \<open>JSON values and Python errors\<close>

text \<open>
  The helper reads every input with \<^verbatim>\<open>json.load\<close>, so a value is \<^verbatim>\<open>None\<close>, a bool,
  an int, a str, a list or a dict. A dict is the list of its items in insertion order
  (keys distinct, as \<^verbatim>\<open>json.load\<close> builds them); a str is the list of its code
  points, each below 256. JSON floats are outside the model.
\<close>

datatype json = JNull | JBool bool | JInt int | JStr string | JList "json list"
  | JObj "(string \<times> json) list"

datatype py_error = TypeError | AttributeError | KeyError | ZeroDivisionError
  | UnicodeEncodeError

text \<open>\<^verbatim>\<open>d.get(k, dflt)\<close> on a dict.\<close>

definition dict_get :: "(string \<times> json) list \<Rightarrow> string \<Rightarrow> json \<Rightarrow> json" where
  "dict_get d k dflt = (case map_of d k of Some v \<Rightarrow> v | None \<Rightarrow> dflt)"

section \<open>Counting modules\<close>

text \<open>
  \<^verbatim>\<open>
  def count_modules(flow):
      count = 0
      if isinstance(flow, list):
          for item in flow:
              count += 1
              if "routes" in item:
                  for route in item["routes"]:
                      count += count_modules(route.get("flow", []))
      return count
  \<close>
  \<open>py_iter v\<close> is what \<^verbatim>\<open>for route in v\<close> runs over: the elements of a list, the keys
  of a dict, the characters of a str; anything else raises TypeError.
\<close>

fun py_iter :: "json \<Rightarrow> py_error + json list" where
  "py_iter (JList xs) = Inr xs"
| "py_iter (JObj d) = Inr (map (\<lambda>kv. JStr (fst kv)) d)"
| "py_iter (JStr s) = Inr (map (\<lambda>c. JStr [c]) s)"
| "py_iter _ = Inl TypeError"

text \<open>
  \<open>item_routes item\<close> is the list the inner loop runs over, empty when the test
  \<^verbatim>\<open>"routes" in item\<close> is false. The test is a key lookup on a dict, a substring test on
  a str and an element test on a list, and raises TypeError on the other values; when
  it holds on a str or a list, \<^verbatim>\<open>item["routes"]\<close> raises TypeError.
\<close>

fun item_routes :: "json \<Rightarrow> py_error + json list" where
  "item_routes (JObj d) = (case map_of d ''routes'' of None \<Rightarrow> Inr [] | Some v \<Rightarrow> py_iter v)"
| "item_routes (JStr s) = (if sublist ''routes'' s then Inl TypeError else Inr [])"
| "item_routes (JList xs) = (if JStr ''routes'' \<in> set xs then Inl TypeError else Inr [])"
| "item_routes _ = Inl TypeError"

text \<open>\<^verbatim>\<open>x.get("flow", [])\<close>: only a dict has \<^verbatim>\<open>get\<close>.\<close>

fun get_flow :: "json \<Rightarrow> py_error + json" where
  "get_flow (JObj d) = Inr (dict_get d ''flow'' (JList []))"
| "get_flow _ = Inl AttributeError"

lemma size_map_of: "map_of kv k = Some v \<Longrightarrow> size v < size (JObj kv)"
  by (induction kv) (auto split: if_splits)

lemma sum_size_le: "sum_list (map size xs) \<le> size_list size (xs :: json list)"
  by (induction xs) auto

lemma sum_size_keys: "sum_list (map size (map (\<lambda>kv. JStr (fst kv)) d)) = 0"
  by (induction d) auto

lemma sum_size_chars: "sum_list (map size (map (\<lambda>c. JStr [c]) s)) = 0"
  by (induction s) auto

lemma py_iter_size: "py_iter v = Inr rs \<Longrightarrow> sum_list (map size rs) < size v + 1"
proof (cases v)
  case (JList xs)
  assume "py_iter v = Inr rs"
  then have "rs = xs" using JList by simp
  then show ?thesis using JList sum_size_le[of xs] by simp
next
  case (JObj d)
  assume "py_iter v = Inr rs"
  then have rs: "rs = map (\<lambda>kv. JStr (fst kv)) d" using JObj by simp
  have "sum_list (map size rs) = 0" unfolding rs by (rule sum_size_keys)
  then show ?thesis by (simp only: zero_less_Suc add_Suc_right)
next
  case (JStr s)
  assume "py_iter v = Inr rs"
  then have rs: "rs = map (\<lambda>c. JStr [c]) s" using JStr by simp
  have "sum_list (map size rs) = 0" unfolding rs by (rule sum_size_chars)
  then show ?thesis by (simp only: zero_less_Suc add_Suc_right)
qed auto

lemma item_routes_size: "item_routes item = Inr rs \<Longrightarrow> sum_list (map size rs) \<le> size item"
proof (cases item)
  case (JObj d)
  assume a: "item_routes item = Inr rs"
  show ?thesis
  proof (cases "map_of d ''routes''")
    case None then show ?thesis using a JObj by simp
  next
    case (Some v)
    then have "py_iter v = Inr rs" using a JObj by simp
    then have "sum_list (map size rs) < size v + 1" by (rule py_iter_size)
    moreover have "size v < size item" using Some JObj size_map_of by blast
    ultimately show ?thesis by simp
  qed
qed (auto split: if_splits)

lemma get_flow_size: "get_flow route = Inr f \<Longrightarrow> size f \<le> size route \<and> 0 < size route"
proof (cases route)
  case (JObj d)
  assume "get_flow route = Inr f"
  then have f: "f = dict_get d ''flow'' (JList [])" using JObj by simp
  show ?thesis
  proof (cases "map_of d ''flow''")
    case None then show ?thesis using f JObj by (simp add: dict_get_def)
  next
    case (Some v)
    then show ?thesis using f JObj size_map_of[OF Some] by (simp add: dict_get_def)
  qed
qed auto

text \<open>
  The two loops carry \<^verbatim>\<open>count\<close> as an accumulator; an exception leaves the loops at
  once. The interpreter's recursion limit is outside the model: a value is a finite
  tree, and the recursion follows it downwards.
\<close>

function count_modules :: "json \<Rightarrow> py_error + nat"
  and items_loop :: "json list \<Rightarrow> nat \<Rightarrow> py_error + nat"
  and routes_loop :: "json list \<Rightarrow> nat \<Rightarrow> py_error + nat" where
  "count_modules flow = (case flow of JList items \<Rightarrow> items_loop items 0 | _ \<Rightarrow> Inr 0)"
| "items_loop [] count = Inr count"
| "items_loop (item # rest) count =
     (case item_routes item of Inl e \<Rightarrow> Inl e
      | Inr rs \<Rightarrow> (case routes_loop rs (count + 1) of Inl e \<Rightarrow> Inl e
                   | Inr c \<Rightarrow> items_loop rest c))"
| "routes_loop [] count = Inr count"
| "routes_loop (route # rest) count =
     (case get_flow route of Inl e \<Rightarrow> Inl e
      | Inr f \<Rightarrow> (case count_modules f of Inl e \<Rightarrow> Inl e
                  | Inr n \<Rightarrow> routes_loop rest (count + n)))"
  by pat_completeness auto
termination
proof (relation "measure (\<lambda>x. case x of
          Inl flow \<Rightarrow> 3 * size flow
        | Inr (Inl (items, c)) \<Rightarrow> 3 * size_list size items + 2
        | Inr (Inr (rs, c)) \<Rightarrow> 3 * sum_list (map size rs) + 1)", goal_cases)
  case 1 show ?case by simp
next
  case (2 flow items) then show ?case by simp
next
  case (3 item rest count rs) then show ?case using item_routes_size[of item rs] by simp
next
  case (4 item rest count rs c) then show ?case by simp
next
  case (5 route rest count f) then show ?case using get_flow_size[of route f] by simp
next
  case (6 route rest count f n) then show ?case using get_flow_size[of route f] by simp
qed

text \<open>
  The specification's flow tree, and its number of nodes: a flow is a list of nodes, a
  node is a mapping that may carry a \<^verbatim>\<open>routes\<close> list, each route is a mapping that may
  carry a nested \<^verbatim>\<open>flow\<close> list. \<open>flow_nodes flow n\<close> holds when \<open>flow\<close> is such a tree
  with \<open>n\<close> nodes in all, \<open>routes_nodes rs m\<close> when the flows nested in the routes
  \<open>rs\<close> have \<open>m\<close> nodes together.
\<close>

inductive flow_nodes :: "json list \<Rightarrow> nat \<Rightarrow> bool"
  and routes_nodes :: "json list \<Rightarrow> nat \<Rightarrow> bool" where
  flow_empty: "flow_nodes [] 0"
| node_plain: "map_of d ''routes'' = None \<Longrightarrow> flow_nodes rest n
     \<Longrightarrow> flow_nodes (JObj d # rest) (Suc n)"
| node_routes: "map_of d ''routes'' = Some (JList rs) \<Longrightarrow> routes_nodes rs m \<Longrightarrow> flow_nodes rest n
     \<Longrightarrow> flow_nodes (JObj d # rest) (Suc (m + n))"
| routes_empty: "routes_nodes [] 0"
| route_nested: "map_of d ''flow'' = Some (JList f) \<Longrightarrow> flow_nodes f k \<Longrightarrow> routes_nodes rest m
     \<Longrightarrow> routes_nodes (JObj d # rest) (k + m)"
| route_noflow: "map_of d ''flow'' = None \<Longrightarrow> routes_nodes rest m
     \<Longrightarrow> routes_nodes (JObj d # rest) m"

code_pred flow_nodes .

section \<open>Python strings\<close>

text \<open>\<^verbatim>\<open>str(n)\<close> on an int: the decimal digits, with a minus sign below zero.\<close>

definition digit_char :: "nat \<Rightarrow> char" where
  "digit_char d = ''0123456789'' ! d"

function str_nat :: "nat \<Rightarrow> string" where
  "str_nat n = (if n < 10 then [digit_char n] else str_nat (n div 10) @ [digit_char (n mod 10)])"
  by pat_completeness auto
termination
  by (relation "measure id") auto

declare str_nat.simps [simp del]

definition py_str :: "int \<Rightarrow> string" where
  "py_str i = (if i < 0 then CHR ''-'' # str_nat (nat (- i)) else str_nat (nat i))"

text \<open>
  \<^verbatim>\<open>str.isspace\<close>, \<^verbatim>\<open>str.lower\<close> and \<^verbatim>\<open>str.strip\<close> on code points below 256.
\<close>

definition py_isspace :: "char \<Rightarrow> bool" where
  "py_isspace c = (let n = (of_char c :: nat) in
     (9 \<le> n \<and> n \<le> 13) \<or> (28 \<le> n \<and> n \<le> 32) \<or> n = 133 \<or> n = 160)"

definition py_lower_char :: "char \<Rightarrow> char" where
  "py_lower_char c = (let n = (of_char c :: nat) in
     if (65 \<le> n \<and> n \<le> 90) \<or> (192 \<le> n \<and> n \<le> 222 \<and> n \<noteq> 215)
     then char_of (n + 32) else c)"

definition py_lower :: "string \<Rightarrow> string" where
  "py_lower s = map py_lower_char s"

definition py_strip :: "string \<Rightarrow> string" where
  "py_strip s = rev (dropWhile py_isspace (rev (dropWhile py_isspace s)))"

section \<open>The progress ledger\<close>

text \<open>
  The ledger file \<^verbatim>\<open>autodoc_progress.json\<close>. \<open>completed\<close> is a dict keyed by strings;
  \<^verbatim>\<open>d[k] = v\<close> on it is \<open>AList.update\<close>, which keeps the position of a key already
  present and appends a new one. A file that does not exist is \<open>None\<close>.
\<close>

record completion =
  completed_at :: string
  doc_file :: "string option"
  findings_file :: "string option"

record progress =
  completed :: "(string \<times> completion) list"
  errors :: "(string \<times> json) list"
  started_at :: "string option"
  last_updated :: "string option"

text \<open>\<^verbatim>\<open>k in d\<close> on a dict.\<close>

definition dict_has :: "(string \<times> 'v) list \<Rightarrow> string \<Rightarrow> bool" where
  "dict_has d k = (k \<in> set (map fst d))"

text \<open>
  \<^verbatim>\<open>
  def load_progress():
      if Path(PROGRESS_FILE).exists():
          with open(PROGRESS_FILE, "r", encoding="utf-8") as f:
              return json.load(f)
      return {"completed": {}, "errors": {}, "started_at": None, "last_updated": None}
  \<close>
\<close>

definition load_progress :: "progress option \<Rightarrow> progress" where
  "load_progress file = (case file of Some p \<Rightarrow> p
     | None \<Rightarrow> \<lparr>completed = [], errors = [], started_at = None, last_updated = None\<rparr>)"

text \<open>
  \<^verbatim>\<open>
  def save_progress(progress):
      progress["last_updated"] = datetime.datetime.now().isoformat()
      if not progress.get("started_at"):
          progress["started_at"] = progress["last_updated"]
      with open(PROGRESS_FILE, "w", encoding="utf-8") as f:
          json.dump(progress, f, indent=2, ensure_ascii=False)
  \<close>
  \<open>now\<close> is the clock's reading. The result is the ledger as mutated in memory and
  the new content of the file. \<^verbatim>\<open>not progress.get("started_at")\<close> holds for
  \<^verbatim>\<open>None\<close> and for the empty string.
\<close>

definition py_falsy :: "string option \<Rightarrow> bool" where
  "py_falsy v = (case v of None \<Rightarrow> True | Some s \<Rightarrow> s = [])"

definition save_progress :: "string \<Rightarrow> progress \<Rightarrow> progress \<times> progress option" where
  "save_progress now progress =
     (let p1 = progress\<lparr>last_updated := Some now\<rparr>;
          p2 = (if py_falsy (started_at p1) then p1\<lparr>started_at := last_updated p1\<rparr> else p1)
      in (p2, Some p2))"

section \<open>The manifest\<close>

text \<open>
  A manifest entry; \<open>s_is_active\<close> and \<open>s_type\<close> are read with \<^verbatim>\<open>get\<close>, so they may be
  missing.
\<close>

record scenario =
  s_id :: int
  s_name :: string
  s_category :: string
  s_is_active :: "bool option"
  s_type :: "string option"
  s_filename :: string

record manifest =
  scenario_count :: int
  scenarios :: "scenario list"

datatype 'a exit = SystemExit int | Raised py_error | Returned 'a

text \<open>\<^verbatim>\<open>load_manifest\<close> exits with status 1 when the manifest file is missing.\<close>

definition load_manifest :: "manifest option \<Rightarrow> manifest exit" where
  "load_manifest file = (case file of None \<Rightarrow> SystemExit 1 | Some m \<Rightarrow> Returned m)"

text \<open>\<^verbatim>\<open>s.get("is_active")\<close> as a condition.\<close>

definition active :: "scenario \<Rightarrow> bool" where
  "active s = (s_is_active s = Some True)"

section \<open>Scheduler\<close>

text \<open>\<^verbatim>\<open>xs[:count]\<close>: a negative count drops from the end.\<close>

definition py_slice_to :: "int \<Rightarrow> 'a list \<Rightarrow> 'a list" where
  "py_slice_to count xs =
     (if 0 \<le> count then take (nat count) xs else take (length xs - nat (- count)) xs)"

text \<open>
  \<^verbatim>\<open>
  def cmd_next(count=1):
      manifest = load_manifest()
      progress = load_progress()
      completed = progress.get("completed", {})
      scenarios = manifest["scenarios"]
      pending = [s for s in scenarios if str(s["id"]) not in completed]
      pending.sort(key=lambda s: (0 if s.get("is_active") else 1, s["category"], s["id"]))
      if not pending:
          print("... documentados! \ud83c\udf89")
          return []
      next_batch = pending[:count]
      ...
      return [s["id"] for s in next_batch]
  \<close>
  Python's sort is stable, as \<open>sort_key\<close> is; tuples compare lexicographically and
  strings by code point.

  The literal printed when nothing is pending is written with the two escapes
  \<^verbatim>\<open>\ud83c\udf89\<close>. In a Python string each of them is a code point of its own, a
  lone surrogate, which no codec of the standard output encodes: \<^verbatim>\<open>print\<close> raises
  UnicodeEncodeError, and \<^verbatim>\<open>return []\<close> is not reached. The other literals printed
  by \<^verbatim>\<open>cmd_next\<close> hold no surrogate.
\<close>

definition next_key :: "scenario \<Rightarrow> nat \<times> string \<times> int" where
  "next_key s = (if active s then 0 else 1, s_category s, s_id s)"

definition pending_of :: "progress \<Rightarrow> scenario list \<Rightarrow> scenario list" where
  "pending_of progress ss = filter (\<lambda>s. \<not> dict_has (completed progress) (py_str (s_id s))) ss"

definition cmd_next :: "int \<Rightarrow> manifest option \<Rightarrow> progress option \<Rightarrow> int list exit" where
  "cmd_next count mfile pfile =
     (case load_manifest mfile of
        SystemExit n \<Rightarrow> SystemExit n
      | Raised e \<Rightarrow> Raised e
      | Returned manifest \<Rightarrow>
          (let progress = load_progress pfile;
               pending = sort_key next_key (pending_of progress (scenarios manifest))
           in if pending = [] then Raised UnicodeEncodeError
              else Returned (map s_id (py_slice_to count pending))))"

text \<open>
  The figures \<^verbatim>\<open>cmd_status\<close> prints, and for \<^verbatim>\<open>--verbose\<close> the pending entries it
  collects (the entries whose \<^verbatim>\<open>is_done\<close> is false).
  \<^verbatim>\<open>
      total = len(scenarios)
      done = len(completed)
      active_count = sum(1 for s in scenarios if s.get("is_active"))
      active_done = sum(1 for s in scenarios if s.get("is_active") and str(s["id"]) in completed)
      ...
          is_done = str(s["id"]) in completed
  \<close>
\<close>

record status_report =
  total :: nat
  done_count :: nat
  active_count :: nat
  active_done :: nat
  not_done :: "scenario list"


section \<open>Marking a scenario complete\<close>

text \<open>
  \<^verbatim>\<open>
  def cmd_complete(scenario_id):
      progress = load_progress()
      doc_files = list(docs_dir.glob(f"{scenario_id}_*.md"))
      finding_files = list(findings_dir.glob(f"{scenario_id}_*.md"))
      if not doc_files:
          confirm = input("...? (s/n): ").strip().lower()
          if confirm != "s":
              print("Cancelado.")
              return
      progress["completed"][str(scenario_id)] = {
          "completed_at": datetime.datetime.now().isoformat(),
          "doc_file": str(doc_files[0]) if doc_files else None,
          "findings_file": str(finding_files[0]) if finding_files else None,
      }
      save_progress(progress)
      manifest = load_manifest()
      total = len(manifest["scenarios"])
      done = len(progress["completed"])
      print(f"   Progreso: {done}/{total} ({done*100//total}%)")
  \<close>
  The inputs are the two glob results, the line typed at the prompt, the clock's two
  readings, and the manifest and ledger files. The result is how the command ends (the
  percentage printed, when it gets there), the ledger in memory and the ledger file.
\<close>

datatype complete_end = Cancelled | Marked nat

definition first_file :: "string list \<Rightarrow> string option" where
  "first_file fs = (case fs of [] \<Rightarrow> None | f # _ \<Rightarrow> Some f)"

definition cmd_complete ::
  "int \<Rightarrow> string list \<Rightarrow> string list \<Rightarrow> string \<Rightarrow> string \<Rightarrow> string \<Rightarrow> manifest option
     \<Rightarrow> progress option \<Rightarrow> complete_end exit \<times> progress \<times> progress option" where
  "cmd_complete scenario_id doc_files finding_files answer now1 now2 mfile pfile =
     (let progress = load_progress pfile
      in if doc_files = [] \<and> py_lower (py_strip answer) \<noteq> ''s''
         then (Returned Cancelled, progress, pfile)
         else
           (let entry = \<lparr>completed_at = now1, doc_file = first_file doc_files,
                          findings_file = first_file finding_files\<rparr>;
                progress1 = progress\<lparr>completed :=
                              AList.update (py_str scenario_id) entry (completed progress)\<rparr>;
                (progress2, pfile2) = save_progress now2 progress1
            in (case load_manifest mfile of
                  SystemExit n \<Rightarrow> (SystemExit n, progress2, pfile2)
                | Raised e \<Rightarrow> (Raised e, progress2, pfile2)
                | Returned manifest \<Rightarrow>
                    (let total = length (scenarios manifest);
                         ndone = length (completed progress2)
                     in if total = 0 then (Raised ZeroDivisionError, progress2, pfile2)
                        else (Returned (Marked (ndone * 100 div total)), progress2, pfile2)))))"

section \<open>Serializing a blueprint\<close>

text \<open>
  \<^verbatim>\<open>json.dumps(obj)\<close> with its defaults: items separated by a comma and a space, a key
  from its value by a colon and a space, and \<^verbatim>\<open>ensure_ascii\<close> on, so that the text
  holds printable ASCII only. In a string the double quote, the backslash and the
  control characters with a short form are escaped by a backslash, every other code
  point outside space..tilde by \<^verbatim>\<open>\uXXXX\<close> in lower-case hexadecimal.
\<close>

definition hex_digit :: "nat \<Rightarrow> char" where
  "hex_digit d = ''0123456789abcdef'' ! d"

definition py_escape_char :: "char \<Rightarrow> string" where
  "py_escape_char c = (let n = (of_char c :: nat) in
     if n = 34 then [CHR 0x5C, CHR 0x22]
     else if n = 92 then [CHR 0x5C, CHR 0x5C]
     else if n = 10 then [CHR 0x5C, CHR ''n'']
     else if n = 13 then [CHR 0x5C, CHR ''r'']
     else if n = 9 then [CHR 0x5C, CHR ''t'']
     else if n = 12 then [CHR 0x5C, CHR ''f'']
     else if n = 8 then [CHR 0x5C, CHR ''b'']
     else if 32 \<le> n \<and> n \<le> 126 then [c]
     else [CHR 0x5C, CHR ''u'', CHR ''0'', CHR ''0'', hex_digit (n div 16), hex_digit (n mod 16)])"

definition py_encode_str :: "string \<Rightarrow> string" where
  "py_encode_str s = CHR 0x22 # concat (map py_escape_char s) @ [CHR 0x22]"

fun join :: "string \<Rightarrow> string list \<Rightarrow> string" where
  "join sep [] = []"
| "join sep [x] = x"
| "join sep (x # y # ys) = x @ sep @ join sep (y # ys)"

fun dumps :: "json \<Rightarrow> string" where
  "dumps JNull = ''null''"
| "dumps (JBool b) = (if b then ''true'' else ''false'')"
| "dumps (JInt i) = py_str i"
| "dumps (JStr s) = py_encode_str s"
| "dumps (JList xs) = ''['' @ join '', '' (map dumps xs) @ '']''"
| "dumps (JObj d) =
     ''{'' @ join '', '' (map (\<lambda>kv. py_encode_str (fst kv) @ '': '' @ dumps (snd kv)) d) @ ''}''"

section \<open>Detecting tables\<close>

text \<open>
  A table descriptor of the schema file: its \<^verbatim>\<open>schema\<close> and \<^verbatim>\<open>name\<close>, and the rest of
  its items (columns, constraints, check constraints). In the schema index only the
  \<^verbatim>\<open>tables\<close> list is read here; a file without that key behaves as one with the empty
  list, since both are false for \<^verbatim>\<open>not schema.get("tables")\<close>. A schema file that
  does not exist is \<open>None\<close>, which is what \<^verbatim>\<open>load_schema\<close> returns then.
\<close>

record table_descriptor =
  tbl_schema :: string
  tbl_name :: string
  tbl_items :: "(string \<times> json) list"

record schema_index =
  tables :: "table_descriptor list"
  schema_items :: "(string \<times> json) list"

text \<open>\<^verbatim>\<open>not schema or not schema.get("tables")\<close>\<close>

definition no_tables :: "schema_index option \<Rightarrow> bool" where
  "no_tables schema = (case schema of None \<Rightarrow> True | Some s \<Rightarrow> tables s = [])"

text \<open>
  \<^verbatim>\<open>
  def extract_tables_from_blueprint(blueprint):
      bp_str = json.dumps(blueprint).lower()
      schema = load_schema()
      if not schema or not schema.get("tables"):
          return []
      found = []
      for table in schema["tables"]:
          table_name = table["name"]
          if table_name.lower() in bp_str:
              found.append(table_name)
      return found
  \<close>
  The first argument is the schema file that \<^verbatim>\<open>load_schema\<close> reads.
\<close>

definition extract_tables_from_blueprint :: "schema_index option \<Rightarrow> json \<Rightarrow> string list" where
  "extract_tables_from_blueprint schema_file blueprint =
     (let bp_str = py_lower (dumps blueprint)
      in if no_tables schema_file then []
         else map tbl_name
                (filter (\<lambda>table. sublist (py_lower (tbl_name table)) bp_str)
                   (tables (the schema_file))))"

text \<open>
  \<^verbatim>\<open>
  def get_relevant_schema(table_names, schema):
      if not schema or not schema.get("tables"):
          return None
      relevant = []
      for table in schema["tables"]:
          if table["name"] in table_names:
              relevant.append(table)
      return relevant
  \<close>
\<close>

definition get_relevant_schema ::
  "string list \<Rightarrow> schema_index option \<Rightarrow> table_descriptor list option" where
  "get_relevant_schema table_names schema =
     (if no_tables schema then None
      else Some (filter (\<lambda>table. tbl_name table \<in> set table_names) (tables (the schema))))"

section \<open>Detecting subscenarios\<close>

text \<open>
  \<^verbatim>\<open>re.findall(r'"scenario":\s*"?(\d+)"?', bp_str)\<close>. \<open>match_scenario text\<close> matches
  the pattern at the start of \<open>text\<close> and gives the group and the text after the
  match. Whitespace, the double quote and the digits are disjoint classes, so the
  greedy choice at each quantifier is the only one that can succeed and nothing is
  gained by backtracking. \<open>findall_scenario\<close> scans from left to right and resumes
  after each match, as \<^verbatim>\<open>findall\<close> does.
\<close>

fun strip_prefix :: "string \<Rightarrow> string \<Rightarrow> string option" where
  "strip_prefix [] ys = Some ys"
| "strip_prefix (x # xs) [] = None"
| "strip_prefix (x # xs) (y # ys) = (if x = y then strip_prefix xs ys else None)"

definition scenario_key :: string where
  "scenario_key = CHR 0x22 # ''scenario'' @ [CHR 0x22, CHR '':'']"

definition py_isdigit :: "char \<Rightarrow> bool" where
  "py_isdigit c = (let n = (of_char c :: nat) in 48 \<le> n \<and> n \<le> 57)"

definition skip_quote :: "string \<Rightarrow> string" where
  "skip_quote text = (case text of [] \<Rightarrow> [] | c # cs \<Rightarrow> if c = CHR 0x22 then cs else c # cs)"

definition match_scenario :: "string \<Rightarrow> (string \<times> string) option" where
  "match_scenario text =
     (case strip_prefix scenario_key text of
        None \<Rightarrow> None
      | Some after_key \<Rightarrow>
          (let after_quote = skip_quote (dropWhile py_isspace after_key);
               digits = takeWhile py_isdigit after_quote
           in if digits = [] then None
              else Some (digits, skip_quote (dropWhile py_isdigit after_quote))))"

lemma strip_prefix_length: "strip_prefix p t = Some r \<Longrightarrow> length r + length p = length t"
  by (induction p t rule: strip_prefix.induct) (auto split: if_splits)

lemma skip_quote_length: "length (skip_quote t) \<le> length t"
  by (auto simp: skip_quote_def split: list.splits)

lemma match_scenario_shorter:
  assumes "match_scenario t = Some (g, r)"
  shows "length r < length t"
proof -
  obtain a where a: "strip_prefix scenario_key t = Some a"
    using assms by (auto simp: match_scenario_def split: option.splits)
  have r: "r = skip_quote (dropWhile py_isdigit (skip_quote (dropWhile py_isspace a)))"
    using assms a by (auto simp: match_scenario_def Let_def split: if_splits)
  have "length r \<le> length (dropWhile py_isdigit (skip_quote (dropWhile py_isspace a)))"
    unfolding r by (rule skip_quote_length)
  also have "\<dots> \<le> length (skip_quote (dropWhile py_isspace a))"
    by (rule length_dropWhile_le)
  also have "\<dots> \<le> length (dropWhile py_isspace a)"
    by (rule skip_quote_length)
  also have "\<dots> \<le> length a"
    by (rule length_dropWhile_le)
  also have "\<dots> < length t"
    using strip_prefix_length[OF a] by (simp add: scenario_key_def)
  finally show ?thesis .
qed

function findall_scenario :: "string \<Rightarrow> string list" where
  "findall_scenario [] = []"
| "findall_scenario (c # cs) =
     (case match_scenario (c # cs) of
        Some (g, rest) \<Rightarrow> g # findall_scenario rest
      | None \<Rightarrow> findall_scenario cs)"
  by pat_completeness auto
termination
proof (relation "measure length", goal_cases)
  case 1 show ?case by simp
next
  case (2 c cs) then show ?case by simp
next
  case (3 c cs x g rest) then show ?case using match_scenario_shorter[of "c # cs" g rest] by simp
qed

text \<open>
  \<^verbatim>\<open>list(set(xs))\<close> gives the distinct elements of \<open>xs\<close> in the iteration order of the
  set, which for strings follows their hash values and so the hash seed that the
  interpreter draws when it starts. The order is an input of the model: a function
  from the list to its distinct elements in some order.
\<close>

type_synonym set_order = "string list \<Rightarrow> string list"

definition set_order_ok :: "set_order \<Rightarrow> bool" where
  "set_order_ok list_set = (\<forall>xs. distinct (list_set xs) \<and> set (list_set xs) = set xs)"

text \<open>
  \<^verbatim>\<open>
      subscenarios = []
      bp_str = json.dumps(blueprint)
      if "CallScenario" in bp_str or "flow:CallScenario" in bp_str:
          scenario_refs = re.findall(r'"scenario":\s*"?(\d+)"?', bp_str)
          subscenarios = list(set(scenario_refs))
  \<close>
\<close>

definition detect_subscenarios :: "set_order \<Rightarrow> json \<Rightarrow> string list" where
  "detect_subscenarios list_set blueprint =
     (let bp_str = dumps blueprint
      in if sublist ''CallScenario'' bp_str \<or> sublist ''flow:CallScenario'' bp_str
         then list_set (findall_scenario bp_str)
         else [])"

section \<open>Preparing a task\<close>

text \<open>
  The \<^verbatim>\<open>task\<close> dict that \<^verbatim>\<open>prepare_task\<close> writes; \<open>task_type\<close> is its key
  \<^verbatim>\<open>type\<close>. \<^verbatim>\<open>relevant_db_schema\<close> is \<^verbatim>\<open>None\<close> or a list of descriptors.
\<close>

record task_artifact =
  scenario_id :: int
  scenario_name :: string
  category :: string
  is_active :: bool
  task_type :: string
  module_count :: nat
  tables_detected :: "string list"
  subscenarios_detected :: "string list"
  blueprint :: json
  relevant_db_schema :: "table_descriptor list option"
  prepared_at :: string

text \<open>
  The body of \<^verbatim>\<open>prepare_task\<close> from the loaded blueprint to the \<^verbatim>\<open>task\<close> dict:
  \<^verbatim>\<open>
      table_names = extract_tables_from_blueprint(blueprint)
      relevant_schema = get_relevant_schema(table_names, schema) if schema else None
      ... subscenarios ...
      module_count = count_modules(blueprint.get("flow", []))
      task = {"scenario_id": sid, "scenario_name": scenario["name"],
              "category": scenario["category"],
              "is_active": scenario.get("is_active", False),
              "type": scenario.get("type", "scenario"),
              "module_count": module_count, "tables_detected": table_names,
              "subscenarios_detected": subscenarios, "blueprint": blueprint,
              "relevant_db_schema": relevant_schema,
              "prepared_at": datetime.datetime.now().isoformat()}
  \<close>
  \<open>schema_file\<close> is the schema file that \<^verbatim>\<open>extract_tables_from_blueprint\<close> loads,
  \<open>schema\<close> the argument of \<^verbatim>\<open>prepare_task\<close>, \<open>now\<close> the clock's reading. A
  blueprint that is not a dict has no \<^verbatim>\<open>get\<close>.
\<close>

definition build_task ::
  "set_order \<Rightarrow> scenario \<Rightarrow> json \<Rightarrow> schema_index option \<Rightarrow> schema_index option \<Rightarrow> string
     \<Rightarrow> py_error + task_artifact" where
  "build_task list_set scenario bp schema_file schema now =
     (let table_names = extract_tables_from_blueprint schema_file bp;
          relevant_schema = (case schema of None \<Rightarrow> None
                             | Some s \<Rightarrow> get_relevant_schema table_names schema);
          subscenarios = detect_subscenarios list_set bp
      in case get_flow bp of
           Inl e \<Rightarrow> Inl e
         | Inr flow \<Rightarrow>
             (case count_modules flow of
                Inl e \<Rightarrow> Inl e
              | Inr n \<Rightarrow>
                  Inr \<lparr>scenario_id = s_id scenario,
                       scenario_name = s_name scenario,
                       category = s_category scenario,
                       is_active = (case s_is_active scenario of None \<Rightarrow> False | Some b \<Rightarrow> b),
                       task_type = (case s_type scenario of None \<Rightarrow> ''scenario'' | Some t \<Rightarrow> t),
                       module_count = n,
                       tables_detected = table_names,
                       subscenarios_detected = subscenarios,
                       blueprint = bp,
                       relevant_db_schema = relevant_schema,
                       prepared_at = now\<rparr>))"

text \<open>
  \<^verbatim>\<open>prepare_task\<close> itself: \<open>snapshot\<close> maps the file names of the snapshot directory
  to the blueprints they hold, \<open>tasks\<close> the file names of the tasks directory to the
  artifacts written. A missing blueprint returns \<^verbatim>\<open>False\<close> and writes nothing; an
  exception writes nothing either.
\<close>

definition prepare_task ::
  "set_order \<Rightarrow> scenario \<Rightarrow> (string \<rightharpoonup> json) \<Rightarrow> schema_index option \<Rightarrow> schema_index option
     \<Rightarrow> string \<Rightarrow> (string \<rightharpoonup> task_artifact) \<Rightarrow> bool exit \<times> (string \<rightharpoonup> task_artifact)" where
  "prepare_task list_set scenario snapshot schema_file schema now tasks =
     (case snapshot (s_filename scenario) of
        None \<Rightarrow> (Returned False, tasks)
      | Some bp \<Rightarrow>
          (case build_task list_set scenario bp schema_file schema now of
             Inl e \<Rightarrow> (Raised e, tasks)
           | Inr task \<Rightarrow>
               (Returned True, tasks(py_str (s_id scenario) @ ''_task.json'' \<mapsto> task))))"

section \<open>A schema of two tables and three blueprints\<close>

definition users_table :: table_descriptor where
  "users_table = \<lparr>tbl_schema = ''public'', tbl_name = ''users'',
     tbl_items = [(''columns'', JList [JObj [(''name'', JStr ''id'')]])]\<rparr>"

definition orders_table :: table_descriptor where
  "orders_table = \<lparr>tbl_schema = ''public'', tbl_name = ''orders'',
     tbl_items = [(''columns'', JList [JObj [(''name'', JStr ''total'')]])]\<rparr>"

definition schema_2 :: schema_index where
  "schema_2 = \<lparr>tables = [users_table, orders_table], schema_items = []\<rparr>"

definition bp_orders :: json where
  "bp_orders = JObj [(''flow'', JList [JObj [(''module'', JStr ''db:Insert''),
     (''table'', JStr ''orders'')]])]"

definition bp_calls :: json where
  "bp_calls = JObj [(''flow'', JList
     [JObj [(''module'', JStr ''x:CallScenario''), (''scenario'', JStr ''42'')],
      JObj [(''scenario'', JInt 42)],
      JObj [(''scenario'', JStr ''42'')],
      JObj [(''scenario'', JInt 42)]])]"

definition bp_two_calls :: json where
  "bp_two_calls = JObj [(''flow'', JList
     [JObj [(''module'', JStr ''x:CallScenario''), (''scenario'', JInt 1)],
      JObj [(''scenario'', JInt 2)]])]"

text \<open>
  The artifact of \<open>scenario_1\<close> on \<open>bp_two_calls\<close> when there is no schema, for a
  list of subscenarios and a time of preparation.
\<close>

definition task_two_calls :: "string list \<Rightarrow> string \<Rightarrow> task_artifact" where
  "task_two_calls subs now =
     \<lparr>scenario_id = 1, scenario_name = ''alta'', category = ''A'', is_active = True,
      task_type = ''scenario'', module_count = 2, tables_detected = [],
      subscenarios_detected = subs, blueprint = bp_two_calls,
      relevant_db_schema = None, prepared_at = now\<rparr>"

section \<open>A manifest of three scenarios\<close>

definition scenario_1 :: scenario where
  "scenario_1 = \<lparr>s_id = 1, s_name = ''alta'', s_category = ''A'', s_is_active = Some True,
     s_type = None, s_filename = ''1.json''\<rparr>"

definition scenario_2 :: scenario where
  "scenario_2 = \<lparr>s_id = 2, s_name = ''baja'', s_category = ''A'', s_is_active = Some False,
     s_type = None, s_filename = ''2.json''\<rparr>"

definition scenario_3 :: scenario where
  "scenario_3 = \<lparr>s_id = 3, s_name = ''cobro'', s_category = ''B'', s_is_active = Some True,
     s_type = None, s_filename = ''3.json''\<rparr>"

definition manifest_3 :: manifest where
  "manifest_3 = \<lparr>scenario_count = 3, scenarios = [scenario_1, scenario_2, scenario_3]\<rparr>"

text \<open>Two ledgers for that manifest: scenario 1 documented, and all three documented.\<close>

definition ledger_1 :: progress where
  "ledger_1 = \<lparr>completed =
       [(''1'', \<lparr>completed_at = ''t1'', doc_file = Some ''docs/scenarios/1_alta.md'',
                 findings_file = None\<rparr>)],
     errors = [], started_at = Some ''t1'', last_updated = Some ''t1''\<rparr>"

definition ledger_all :: progress where
  "ledger_all = \<lparr>completed =
       [(''1'', \<lparr>completed_at = ''t1'', doc_file = None, findings_file = None\<rparr>),
        (''2'', \<lparr>completed_at = ''t2'', doc_file = None, findings_file = None\<rparr>),
        (''3'', \<lparr>completed_at = ''t3'', doc_file = None, findings_file = None\<rparr>)],
     errors = [], started_at = Some ''t1'', last_updated = Some ''t3''\<rparr>"

section \<open>Properties of the module counter\<close>

lemma loops_count:
  "(flow_nodes items n \<longrightarrow> (\<forall>c. items_loop items c = Inr (c + n))) \<and>
   (routes_nodes rs m \<longrightarrow> (\<forall>c. routes_loop rs c = Inr (c + m)))"
proof (induction rule: flow_nodes_routes_nodes.induct)
  case (route_nested d f k rest m)
  then show ?case by (simp add: dict_get_def)
next
  case (route_noflow d rest m)
  then show ?case by (simp add: dict_get_def)
qed simp_all

text \<open>
  Claim C1. On every flow tree with \<open>n\<close> nodes in all, nested route branches included
  at any depth and a route without a nested flow counting as empty, \<open>count_modules\<close>
  returns exactly \<open>n\<close>; on the empty list it returns 0.
\<close>

theorem count_modules_total:
  "(flow_nodes items n \<longrightarrow> count_modules (JList items) = Inr n) \<and>
   count_modules (JList []) = Inr 0"
  using loops_count[of items n "[]" 0] by simp

theorem count_modules_total_witness:
  "flow_nodes [JObj [(''module'', JStr ''a''),
       (''routes'', JList [JObj [(''flow'', JList [JObj [], JObj []])], JObj []])], JObj []] 4
   \<and> count_modules (JList [JObj [(''module'', JStr ''a''),
       (''routes'', JList [JObj [(''flow'', JList [JObj [], JObj []])], JObj []])], JObj []])
     = Inr 4"
proof -
  have h: "flow_nodes [JObj [(''module'', JStr ''a''),
       (''routes'', JList [JObj [(''flow'', JList [JObj [], JObj []])], JObj []])], JObj []] 4"
    by code_simp
  show ?thesis using h count_modules_total[of _ 4] by blast
qed

section \<open>Properties of the progress ledger\<close>

lemmas example_defs = manifest_3_def scenario_1_def scenario_2_def scenario_3_def

lemma str_nat_digit: "n < 10 \<Longrightarrow> str_nat n = [digit_char n]"
  by (simp add: str_nat.simps[of n])

lemma str_nat_more: "10 \<le> n \<Longrightarrow> str_nat n = str_nat (n div 10) @ [digit_char (n mod 10)]"
  by (simp add: str_nat.simps[of n])

lemmas py_str_eval = py_str_def str_nat_digit str_nat_more digit_char_def

lemmas py_text_eval = py_lower_def py_strip_def py_isspace_def py_lower_char_def char_of_eq_iff

text \<open>
  Claim C6. Without a ledger file, \<open>load_progress\<close> returns the fresh ledger with
  empty \<open>completed\<close> and \<open>errors\<close> and both timestamps null; it has no failing branch.
  With a file, it returns the file's content.
\<close>

theorem load_progress_fresh:
  "load_progress None = \<lparr>completed = [], errors = [], started_at = None, last_updated = None\<rparr>
   \<and> load_progress (Some p) = p"
  by (simp add: load_progress_def)

text \<open>
  Claim C7. \<open>save_progress\<close> changes the two timestamps only: \<open>last_updated\<close> becomes
  the current time, \<open>started_at\<close> becomes the current time when it was unset (null or
  empty, the values Python's \<^verbatim>\<open>not\<close> accepts) and is kept otherwise; \<open>completed\<close>
  and \<open>errors\<close> are untouched, the file receives the ledger so updated, and saving
  what was just loaded leaves \<open>completed\<close> as it was.
\<close>

theorem save_progress_frame:
  "fst (save_progress now p) =
     p\<lparr>last_updated := Some now,
       started_at := (if started_at p = None \<or> started_at p = Some [] then Some now
                      else started_at p)\<rparr>
   \<and> snd (save_progress now p) = Some (fst (save_progress now p))
   \<and> completed (fst (save_progress now p)) = completed p
   \<and> errors (fst (save_progress now p)) = errors p
   \<and> completed (fst (save_progress now (load_progress file))) = completed (load_progress file)"
  by (cases "started_at p") (simp_all add: save_progress_def py_falsy_def Let_def)

section \<open>Properties of the scheduler\<close>

lemma next_key_less:
  "next_key a < next_key b \<longleftrightarrow>
     (active a \<and> \<not> active b) \<or>
     (active a = active b \<and>
        (s_category a < s_category b \<or> (s_category a = s_category b \<and> s_id a < s_id b)))"
  by (auto simp: next_key_def less_prod_def)

lemma sort_key_empty: "sort_key f xs = [] \<longleftrightarrow> xs = []"
  using length_sort[of f xs] by (metis length_0_conv)

lemma cmd_next_take:
  "0 \<le> count \<Longrightarrow> pending_of (load_progress pfile) (scenarios m) \<noteq> [] \<Longrightarrow>
   cmd_next count (Some m) pfile =
     Returned (map s_id (take (nat count)
       (sort_key next_key (pending_of (load_progress pfile) (scenarios m)))))"
  by (simp add: cmd_next_def load_manifest_def py_slice_to_def sort_key_empty Let_def)

lemma cmd_next_nothing_pending:
  "pending_of (load_progress pfile) (scenarios m) = [] \<Longrightarrow>
   cmd_next count (Some m) pfile = Raised UnicodeEncodeError"
  by (simp add: cmd_next_def load_manifest_def Let_def)

lemmas cmd_next_eval = cmd_next_def load_manifest_def load_progress_def pending_of_def
  dict_has_def py_slice_to_def next_key_def active_def example_defs py_str_eval Let_def

lemma cmd_next_example: "cmd_next 2 (Some manifest_3) None = Returned [1, 3]"
  by (simp add: cmd_next_eval)

lemma cmd_next_example_ledger:
  "cmd_next 5 (Some manifest_3) (Some ledger_1) = Returned [3, 2]"
  by (simp add: cmd_next_eval ledger_1_def)

text \<open>
  What \<open>cmd_next\<close> does while something is pending, for a count that is not negative:
  it returns the IDs of the first \<open>count\<close> entries of the pending list sorted by
  \<open>next_key\<close>. The pending list holds the manifest entries whose ID is not a key of
  \<open>completed\<close>; the sorted list is ascending in the key, has the same entries, and
  keeps entries of equal key in manifest order; the key orders active entries first,
  then by category, then by ID. On the manifest of three scenarios a count of 2
  gives \<open>[1, 3]\<close> with nothing completed, and a count of 5 gives \<open>[3, 2]\<close> once
  scenario 1 is completed.
\<close>

lemma cmd_next_order:
  "0 \<le> count \<Longrightarrow> pending_of (load_progress pfile) (scenarios m) \<noteq> [] \<Longrightarrow>
   cmd_next count (Some m) pfile =
     Returned (map s_id (take (nat count)
       (sort_key next_key (pending_of (load_progress pfile) (scenarios m)))))
   \<and> set (pending_of (load_progress pfile) (scenarios m)) =
       {s \<in> set (scenarios m). \<not> dict_has (completed (load_progress pfile)) (py_str (s_id s))}
   \<and> sorted (map next_key (sort_key next_key (pending_of (load_progress pfile) (scenarios m))))
   \<and> filter (\<lambda>s. next_key s = k)
         (sort_key next_key (pending_of (load_progress pfile) (scenarios m))) =
       filter (\<lambda>s. next_key s = k) (pending_of (load_progress pfile) (scenarios m))
   \<and> set (sort_key next_key (pending_of (load_progress pfile) (scenarios m))) =
       set (pending_of (load_progress pfile) (scenarios m))
   \<and> length (sort_key next_key (pending_of (load_progress pfile) (scenarios m))) =
       length (pending_of (load_progress pfile) (scenarios m))
   \<and> (next_key a < next_key b \<longleftrightarrow>
         (active a \<and> \<not> active b) \<or>
         (active a = active b \<and>
            (s_category a < s_category b \<or> (s_category a = s_category b \<and> s_id a < s_id b))))
   \<and> cmd_next 2 (Some manifest_3) None = Returned [1, 3]
   \<and> cmd_next 5 (Some manifest_3) (Some ledger_1) = Returned [3, 2]"
proof -
  assume c: "0 \<le> count" and p: "pending_of (load_progress pfile) (scenarios m) \<noteq> []"
  have 1: "set (pending_of (load_progress pfile) (scenarios m)) =
       {s \<in> set (scenarios m). \<not> dict_has (completed (load_progress pfile)) (py_str (s_id s))}"
    by (simp add: pending_of_def)
  show ?thesis
    using cmd_next_take[OF c p] 1 next_key_less[of a b] cmd_next_example
      cmd_next_example_ledger
      sort_key_stable[of next_key k "pending_of (load_progress pfile) (scenarios m)"]
    by simp
qed

text \<open>
  Claim C8. The claim has \<open>cmd_next\<close> return the empty list, and no error, when every
  scenario is complete. On the manifest of three scenarios with all three in
  \<open>completed\<close> nothing is pending, and \<open>cmd_next\<close> raises UnicodeEncodeError at the
  \<^verbatim>\<open>print\<close> that stands before \<^verbatim>\<open>return []\<close>; it does the same on a manifest without
  scenarios.
\<close>

theorem cmd_next_all_complete_raises:
  "pending_of (load_progress (Some ledger_all)) (scenarios manifest_3) = []
   \<and> cmd_next 2 (Some manifest_3) (Some ledger_all) = Raised UnicodeEncodeError
   \<and> cmd_next 2 (Some manifest_3) (Some ledger_all) \<noteq> Returned []
   \<and> cmd_next 1 (Some \<lparr>scenario_count = 0, scenarios = []\<rparr>) None = Raised UnicodeEncodeError"
  by (simp add: cmd_next_eval ledger_all_def)

section \<open>Properties of marking complete\<close>




text \<open>
  Claim C9. When no document is found and the answer at the prompt, stripped and
  lowered, is not \<^verbatim>\<open>s\<close>, \<open>cmd_complete\<close> stops as cancelled: the ledger in memory is
  the one that was loaded and the ledger file is left as it was.
\<close>

theorem cmd_complete_declined:
  "doc_files = [] \<Longrightarrow> py_lower (py_strip answer) \<noteq> ''s'' \<Longrightarrow>
   cmd_complete sid doc_files finding_files answer now1 now2 mfile pfile =
     (Returned Cancelled, load_progress pfile, pfile)"
  by (simp add: cmd_complete_def Let_def)

theorem cmd_complete_declined_witness:
  "py_lower (py_strip ''n'') \<noteq> ''s'' \<and>
   cmd_complete 3730131 [] [] ''n'' ''t1'' ''t2'' (Some manifest_3) None =
     (Returned Cancelled,
      \<lparr>completed = [], errors = [], started_at = None, last_updated = None\<rparr>, None)"
proof -
  have h: "py_lower (py_strip ''n'') \<noteq> ''s''"
    by (simp add: py_text_eval)
  show ?thesis
    using h cmd_complete_declined[OF refl h, of 3730131 "[]" "''t1''" "''t2''" "Some manifest_3" None]
    by (simp add: load_progress_def)
qed






section \<open>Properties of table detection\<close>

lemmas dumps_eval = py_encode_str_def py_escape_char_def py_str_eval
lemmas findall_eval = match_scenario_def scenario_key_def skip_quote_def py_isdigit_def
  py_isspace_def Let_def
lemmas schema_defs = schema_2_def users_table_def orders_table_def

lemma dumps_bp_orders:
  "dumps bp_orders =
     [CHR ''{'', CHR 0x22] @ ''flow'' @ [CHR 0x22] @ '': [{'' @ [CHR 0x22] @ ''module''
     @ [CHR 0x22] @ '': '' @ [CHR 0x22] @ ''db:Insert'' @ [CHR 0x22] @ '', '' @ [CHR 0x22]
     @ ''table'' @ [CHR 0x22] @ '': '' @ [CHR 0x22] @ ''orders'' @ [CHR 0x22] @ ''}]}''"
  by (simp add: bp_orders_def dumps_eval)

lemma dumps_bp_calls:
  "dumps bp_calls =
     [CHR ''{'', CHR 0x22] @ ''flow'' @ [CHR 0x22] @ '': [{'' @ [CHR 0x22] @ ''module''
     @ [CHR 0x22] @ '': '' @ [CHR 0x22] @ ''x:CallScenario'' @ [CHR 0x22] @ '', ''
     @ scenario_key @ '' '' @ [CHR 0x22] @ ''42'' @ [CHR 0x22] @ ''}, {''
     @ scenario_key @ '' 42}, {''
     @ scenario_key @ '' '' @ [CHR 0x22] @ ''42'' @ [CHR 0x22] @ ''}, {''
     @ scenario_key @ '' 42}]}''"
  by (simp add: bp_calls_def dumps_eval scenario_key_def)

lemma sublist_py_lower: "sublist u t \<Longrightarrow> sublist (py_lower u) (py_lower t)"
  unfolding py_lower_def by (rule map_mono_sublist)

lemma sublist_map_source:
  assumes "sublist x (map f t)"
  shows "\<exists>u. map f u = x \<and> sublist u t"
proof -
  obtain ps ss where "map f t = ps @ x @ ss"
    using assms by (auto simp: sublist_def)
  then obtain us vs where t: "t = us @ vs" and "ps = map f us" and v: "x @ ss = map f vs"
    by (auto simp: map_eq_append_conv)
  from v obtain u ws where "vs = u @ ws" and "x = map f u"
    by (auto simp: append_eq_map_conv)
  then show ?thesis using t by (auto simp: sublist_def)
qed

lemma extract_tables_set:
  "set (extract_tables_from_blueprint (Some S) bp) =
     {T \<in> tbl_name ` set (tables S). sublist (py_lower T) (py_lower (dumps bp))}"
  by (auto simp: extract_tables_from_blueprint_def no_tables_def Let_def)

text \<open>
  Claim C2. Table detection serializes the blueprint and tests each table name of
  the schema, lowered, as a substring of the lowered text. A table name that occurs
  verbatim in the serialized text is detected; when no string that agrees with a
  table name up to letter case occurs in the text, nothing is detected. Without a
  schema file nothing is detected either.
\<close>

theorem extract_tables_detects:
  "(T \<in> tbl_name ` set (tables S) \<and> sublist T (dumps bp)
      \<longrightarrow> T \<in> set (extract_tables_from_blueprint (Some S) bp))
   \<and> ((\<forall>t \<in> set (tables S). \<forall>u. py_lower u = py_lower (tbl_name t) \<longrightarrow> \<not> sublist u (dumps bp))
      \<longrightarrow> extract_tables_from_blueprint (Some S) bp = [])
   \<and> set (extract_tables_from_blueprint (Some S) bp) =
       {T \<in> tbl_name ` set (tables S). sublist (py_lower T) (py_lower (dumps bp))}
   \<and> extract_tables_from_blueprint None bp = []"
proof -
  have 1: "T \<in> tbl_name ` set (tables S) \<and> sublist T (dumps bp)
      \<longrightarrow> T \<in> set (extract_tables_from_blueprint (Some S) bp)"
    using sublist_py_lower[of T "dumps bp"] by (simp add: extract_tables_set)
  have 2: "extract_tables_from_blueprint (Some S) bp = []"
    if h: "\<forall>t \<in> set (tables S). \<forall>u. py_lower u = py_lower (tbl_name t) \<longrightarrow> \<not> sublist u (dumps bp)"
  proof -
    have "\<not> sublist (py_lower (tbl_name t)) (py_lower (dumps bp))" if t: "t \<in> set (tables S)" for t
    proof
      assume "sublist (py_lower (tbl_name t)) (py_lower (dumps bp))"
      then obtain u where "py_lower u = py_lower (tbl_name t)" "sublist u (dumps bp)"
        unfolding py_lower_def using sublist_map_source by blast
      then show False using h t by blast
    qed
    then have "set (extract_tables_from_blueprint (Some S) bp) = {}"
      by (auto simp: extract_tables_set)
    then show ?thesis by simp
  qed
  have 3: "extract_tables_from_blueprint None bp = []"
    by (simp add: extract_tables_from_blueprint_def no_tables_def)
  show ?thesis using 1 2 3 extract_tables_set[of S bp] by blast
qed

lemma no_table_in_bp_calls:
  "\<not> sublist ''users'' (py_lower (dumps bp_calls))"
  "\<not> sublist ''orders'' (py_lower (dumps bp_calls))"
  unfolding dumps_bp_calls
  by (simp_all add: py_lower_def py_lower_char_def scenario_key_def sublist_Cons_right)

theorem extract_tables_detects_witness:
  "''orders'' \<in> tbl_name ` set (tables schema_2) \<and> sublist ''orders'' (dumps bp_orders)
   \<and> ''orders'' \<in> set (extract_tables_from_blueprint (Some schema_2) bp_orders)
   \<and> extract_tables_from_blueprint (Some schema_2) bp_calls = []"
proof -
  have a: "''orders'' \<in> tbl_name ` set (tables schema_2)"
    by (simp add: schema_defs)
  have b: "sublist ''orders'' (dumps bp_orders)"
    unfolding dumps_bp_orders by (simp add: sublist_Cons_right)
  have c: "''orders'' \<in> set (extract_tables_from_blueprint (Some schema_2) bp_orders)"
    using a b extract_tables_detects[of "''orders''" schema_2 bp_orders] by blast
  have n: "\<not> sublist u (dumps bp_calls)"
    if "t \<in> set (tables schema_2)" and "py_lower u = py_lower (tbl_name t)" for t u
  proof
    assume "sublist u (dumps bp_calls)"
    then have "sublist (py_lower (tbl_name t)) (py_lower (dumps bp_calls))"
      using sublist_py_lower[of u "dumps bp_calls"] that(2) by simp
    moreover have "py_lower (tbl_name t) = ''users'' \<or> py_lower (tbl_name t) = ''orders''"
      using that(1) by (auto simp: schema_defs py_lower_def py_lower_char_def)
    ultimately show False using no_table_in_bp_calls by auto
  qed
  then have h: "\<forall>t \<in> set (tables schema_2). \<forall>u. py_lower u = py_lower (tbl_name t)
      \<longrightarrow> \<not> sublist u (dumps bp_calls)"
    by blast
  have d: "extract_tables_from_blueprint (Some schema_2) bp_calls = []"
    using h extract_tables_detects[of _ schema_2 bp_calls] by blast
  from a b c d show ?thesis by (intro conjI)
qed

section \<open>Properties of subscenario detection\<close>


lemma set_order_ok_remdups: "set_order_ok remdups"
  by (simp add: set_order_ok_def)

lemma set_order_ok_rev_remdups: "set_order_ok (rev \<circ> remdups)"
  by (simp add: set_order_ok_def)




lemma marker_longer: "sublist ''flow:CallScenario'' t \<Longrightarrow> sublist ''CallScenario'' t"
proof -
  assume a: "sublist ''flow:CallScenario'' t"
  have "sublist ''CallScenario'' (''flow:'' @ ''CallScenario'' @ [])"
    by (rule sublist_appendI)
  then have "sublist ''CallScenario'' ''flow:CallScenario''" by simp
  then show ?thesis using a by (rule sublist_order.order_trans)
qed

lemma detect_subscenarios_set:
  "set_order_ok list_set \<Longrightarrow>
   distinct (detect_subscenarios list_set bp) \<and>
   set (detect_subscenarios list_set bp) =
     (if sublist ''CallScenario'' (dumps bp) then set (findall_scenario (dumps bp)) else {})"
  using marker_longer[of "dumps bp"]
  by (auto simp: detect_subscenarios_def set_order_ok_def Let_def)






section \<open>Properties of the task artifact\<close>

lemma dumps_bp_two_calls:
  "dumps bp_two_calls =
     [CHR ''{'', CHR 0x22] @ ''flow'' @ [CHR 0x22] @ '': [{'' @ [CHR 0x22] @ ''module''
     @ [CHR 0x22] @ '': '' @ [CHR 0x22] @ ''x:CallScenario'' @ [CHR 0x22] @ '', ''
     @ scenario_key @ '' 1}, {'' @ scenario_key @ '' 2}]}''"
  by (simp add: bp_two_calls_def dumps_eval scenario_key_def)

lemma findall_bp_two_calls: "findall_scenario (dumps bp_two_calls) = [''1'', ''2'']"
  unfolding dumps_bp_two_calls by (simp add: findall_eval)

lemma marker_bp_two_calls: "sublist ''CallScenario'' (dumps bp_two_calls)"
  unfolding dumps_bp_two_calls by (simp add: sublist_Cons_right scenario_key_def)

lemma detect_bp_two_calls:
  "detect_subscenarios list_set bp_two_calls = list_set [''1'', ''2'']"
  using marker_bp_two_calls by (simp add: detect_subscenarios_def findall_bp_two_calls Let_def)

lemma count_bp_two_calls: "count_modules (JList
     [JObj [(''module'', JStr ''x:CallScenario''), (''scenario'', JInt 1)],
      JObj [(''scenario'', JInt 2)]]) = Inr 2"
  by simp

lemma build_task_bp_two_calls:
  "build_task list_set scenario_1 bp_two_calls None None now =
     Inr (task_two_calls (list_set [''1'', ''2'']) now)"
proof -
  have f: "get_flow bp_two_calls = Inr (JList
     [JObj [(''module'', JStr ''x:CallScenario''), (''scenario'', JInt 1)],
      JObj [(''scenario'', JInt 2)]])"
    by (simp add: bp_two_calls_def dict_get_def)
  show ?thesis
    unfolding build_task_def Let_def f detect_bp_two_calls task_two_calls_def
    by (simp add: count_bp_two_calls extract_tables_from_blueprint_def no_tables_def
        scenario_1_def del: count_modules.simps)
qed

lemma build_task_fields:
  assumes "build_task list_set sc bp schema_file schema now = Inr task"
  shows "task = \<lparr>scenario_id = s_id sc, scenario_name = s_name sc, category = s_category sc,
      is_active = (case s_is_active sc of None \<Rightarrow> False | Some b \<Rightarrow> b),
      task_type = (case s_type sc of None \<Rightarrow> ''scenario'' | Some t \<Rightarrow> t),
      module_count = module_count task,
      tables_detected = extract_tables_from_blueprint schema_file bp,
      subscenarios_detected = detect_subscenarios list_set bp,
      blueprint = bp,
      relevant_db_schema = get_relevant_schema (extract_tables_from_blueprint schema_file bp) schema,
      prepared_at = now\<rparr>"
    and "\<exists>flow. get_flow bp = Inr flow \<and> count_modules flow = Inr (module_count task)"
  using assms
  by (auto simp: build_task_def Let_def get_relevant_schema_def no_tables_def
      simp del: count_modules.simps split: sum.splits option.splits)

lemma build_task_error:
  "build_task list_set sc bp schema_file schema now = Inl e \<longleftrightarrow>
     (get_flow bp = Inl e \<or> (\<exists>flow. get_flow bp = Inr flow \<and> count_modules flow = Inl e))"
  by (auto simp: build_task_def Let_def simp del: count_modules.simps split: sum.splits)


lemma build_task_same_but:
  assumes 1: "build_task ls1 sc bp sf s t1 = Inr a1"
    and 2: "build_task ls2 sc bp sf s t2 = Inr a2"
  shows "a1\<lparr>prepared_at := x, subscenarios_detected := y\<rparr> =
         a2\<lparr>prepared_at := x, subscenarios_detected := y\<rparr>"
    and "subscenarios_detected a1 = detect_subscenarios ls1 bp"
    and "subscenarios_detected a2 = detect_subscenarios ls2 bp"
proof -
  note f1 = build_task_fields[OF 1] and f2 = build_task_fields[OF 2]
  have m: "module_count a1 = module_count a2"
    using f1(2) f2(2) by auto
  show "a1\<lparr>prepared_at := x, subscenarios_detected := y\<rparr> =
        a2\<lparr>prepared_at := x, subscenarios_detected := y\<rparr>"
    by (subst f1(1), subst f2(1)) (simp add: m)
  show "subscenarios_detected a1 = detect_subscenarios ls1 bp"
    by (subst f1(1)) simp
  show "subscenarios_detected a2 = detect_subscenarios ls2 bp"
    by (subst f2(1)) simp
qed

text \<open>
  Claim C4, as stated, fails where the schema index is absent: the artifact's
  \<open>relevant_db_schema\<close> is then \<^verbatim>\<open>None\<close>, not an empty list.
\<close>

theorem relevant_schema_absent_counterexample:
  "map_sum id relevant_db_schema (build_task remdups scenario_1 bp_two_calls None None ''t'')
     \<noteq> Inr (Some [])"
  by (simp add: build_task_bp_two_calls task_two_calls_def)

text \<open>
  Claim C4, amended. With a schema index that lists tables, \<open>get_relevant_schema\<close>
  returns the descriptors whose name is among the detected names, each as it stands in
  the index and in the index's order. With an index that lists no tables, or with no
  index, it returns \<^verbatim>\<open>None\<close>. In the artifact, \<open>relevant_db_schema\<close> is that result
  for the detected tables; with no index it is \<^verbatim>\<open>None\<close>, and the absence of the index
  raises nothing that its presence would not. From the tables \<^verbatim>\<open>users\<close> and
  \<^verbatim>\<open>orders\<close>, detecting \<^verbatim>\<open>orders\<close> alone gives the \<^verbatim>\<open>orders\<close> descriptor alone.
\<close>

theorem relevant_schema_slice:
  "(tables S \<noteq> [] \<longrightarrow> get_relevant_schema names (Some S) =
       Some (filter (\<lambda>t. tbl_name t \<in> set names) (tables S)))
   \<and> (tables S = [] \<longrightarrow> get_relevant_schema names (Some S) = None)
   \<and> get_relevant_schema names None = None
   \<and> (build_task list_set sc bp schema_file schema now = Inr task \<longrightarrow>
         tables_detected task = extract_tables_from_blueprint schema_file bp
         \<and> relevant_db_schema task = get_relevant_schema (tables_detected task) schema)
   \<and> (build_task list_set sc bp schema_file None now = Inr task' \<longrightarrow>
         relevant_db_schema task' = None)
   \<and> (build_task list_set sc bp schema_file None now = Inl e \<longleftrightarrow>
         build_task list_set sc bp schema_file schema now = Inl e)
   \<and> get_relevant_schema [''orders''] (Some schema_2) = Some [orders_table]"
proof -
  have 1: "build_task list_set sc bp schema_file schema now = Inr task \<longrightarrow>
         tables_detected task = extract_tables_from_blueprint schema_file bp
         \<and> relevant_db_schema task = get_relevant_schema (tables_detected task) schema"
  proof
    assume a: "build_task list_set sc bp schema_file schema now = Inr task"
    show "tables_detected task = extract_tables_from_blueprint schema_file bp
         \<and> relevant_db_schema task = get_relevant_schema (tables_detected task) schema"
      by (subst (1 2 3) build_task_fields(1)[OF a]) simp
  qed
  have 2: "build_task list_set sc bp schema_file None now = Inr task' \<longrightarrow>
         relevant_db_schema task' = None"
  proof
    assume a: "build_task list_set sc bp schema_file None now = Inr task'"
    show "relevant_db_schema task' = None"
      by (subst build_task_fields(1)[OF a]) (simp add: get_relevant_schema_def no_tables_def)
  qed
  have 3: "build_task list_set sc bp schema_file None now = Inl e \<longleftrightarrow>
         build_task list_set sc bp schema_file schema now = Inl e"
    by (simp only: build_task_error)
  have 4: "get_relevant_schema [''orders''] (Some schema_2) = Some [orders_table]"
    by (simp add: get_relevant_schema_def no_tables_def schema_defs)
  have 5: "tables S \<noteq> [] \<longrightarrow> get_relevant_schema names (Some S) =
       Some (filter (\<lambda>t. tbl_name t \<in> set names) (tables S))"
    and 6: "tables S = [] \<longrightarrow> get_relevant_schema names (Some S) = None"
    and 7: "get_relevant_schema names None = None"
    by (simp_all add: get_relevant_schema_def no_tables_def)
  from 5 6 7 1 2 3 4 show ?thesis by (intro conjI)
qed

theorem relevant_schema_slice_witness:
  "tables schema_2 \<noteq> []
   \<and> get_relevant_schema [''orders''] (Some schema_2) =
       Some (filter (\<lambda>t. tbl_name t \<in> set [''orders'']) (tables schema_2))
   \<and> filter (\<lambda>t. tbl_name t \<in> set [''orders'']) (tables schema_2) = [orders_table]
   \<and> build_task remdups scenario_1 bp_two_calls None None ''t'' =
       Inr (task_two_calls [''1'', ''2''] ''t'')
   \<and> relevant_db_schema (task_two_calls [''1'', ''2''] ''t'') = None"
proof -
  have a: "tables schema_2 \<noteq> []" by (simp add: schema_defs)
  have "tables schema_2 \<noteq> [] \<longrightarrow> get_relevant_schema [''orders''] (Some schema_2) =
       Some (filter (\<lambda>t. tbl_name t \<in> set [''orders'']) (tables schema_2))"
    by (rule relevant_schema_slice[of schema_2 "[''orders'']", THEN conjunct1])
  then have b: "get_relevant_schema [''orders''] (Some schema_2) =
       Some (filter (\<lambda>t. tbl_name t \<in> set [''orders'']) (tables schema_2))"
    using a by (rule mp)
  have c: "filter (\<lambda>t. tbl_name t \<in> set [''orders'']) (tables schema_2) = [orders_table]"
    by (simp add: schema_defs)
  have d: "build_task remdups scenario_1 bp_two_calls None None ''t'' =
       Inr (task_two_calls [''1'', ''2''] ''t'')"
    by (simp add: build_task_bp_two_calls)
  have "build_task remdups scenario_1 bp_two_calls None None ''t'' =
       Inr (task_two_calls [''1'', ''2''] ''t'')
       \<longrightarrow> relevant_db_schema (task_two_calls [''1'', ''2''] ''t'') = None"
    by (rule relevant_schema_slice[THEN conjunct2, THEN conjunct2, THEN conjunct2,
          THEN conjunct2, THEN conjunct1])
  then have e: "relevant_db_schema (task_two_calls [''1'', ''2''] ''t'') = None"
    using d by (rule mp)
  from a b c d e show ?thesis by (intro conjI)
qed

text \<open>
  Claim C5, as stated, fails on the order of \<open>subscenarios_detected\<close>: two
  iteration orders of the same set give the same IDs in different orders.
\<close>

theorem build_task_order_counterexample:
  "set_order_ok remdups \<and> set_order_ok (rev \<circ> remdups)
   \<and> map_sum id subscenarios_detected
        (build_task remdups scenario_1 bp_two_calls None None ''t'') = Inr [''1'', ''2'']
   \<and> map_sum id subscenarios_detected
        (build_task (rev \<circ> remdups) scenario_1 bp_two_calls None None ''t'') = Inr [''2'', ''1'']"
  using set_order_ok_remdups set_order_ok_rev_remdups
  by (simp add: build_task_bp_two_calls task_two_calls_def)

text \<open>
  Claim C5, amended. Under one iteration order of sets, two calls of \<open>build_task\<close>
  on the same inputs give artifacts that differ in \<open>prepared_at\<close> at most. Under
  two iteration orders, the artifacts agree in every field but \<open>prepared_at\<close> and
  \<open>subscenarios_detected\<close>, and the two lists of subscenarios hold the same IDs,
  each without duplicates. Whether a call raises depends on neither the clock nor
  the order.
\<close>

theorem build_task_repeatable:
  "(build_task list_set sc bp schema_file schema t1 = Inr a1
      \<and> build_task list_set sc bp schema_file schema t2 = Inr a2
      \<longrightarrow> a1\<lparr>prepared_at := x\<rparr> = a2\<lparr>prepared_at := x\<rparr>)
   \<and> (set_order_ok ls1 \<and> set_order_ok ls2
      \<and> build_task ls1 sc bp schema_file schema t1 = Inr b1
      \<and> build_task ls2 sc bp schema_file schema t2 = Inr b2
      \<longrightarrow> b1\<lparr>prepared_at := x, subscenarios_detected := y\<rparr> =
            b2\<lparr>prepared_at := x, subscenarios_detected := y\<rparr>
          \<and> set (subscenarios_detected b1) = set (subscenarios_detected b2)
          \<and> distinct (subscenarios_detected b1) \<and> distinct (subscenarios_detected b2))
   \<and> (build_task ls1 sc bp schema_file schema t1 = Inl e \<longleftrightarrow>
       build_task ls2 sc bp schema_file schema t2 = Inl e)"
proof -
  have 1: "build_task list_set sc bp schema_file schema t1 = Inr a1
      \<and> build_task list_set sc bp schema_file schema t2 = Inr a2
      \<longrightarrow> a1\<lparr>prepared_at := x\<rparr> = a2\<lparr>prepared_at := x\<rparr>"
  proof
    assume h: "build_task list_set sc bp schema_file schema t1 = Inr a1
      \<and> build_task list_set sc bp schema_file schema t2 = Inr a2"
    then have p: "build_task list_set sc bp schema_file schema t1 = Inr a1"
      and q: "build_task list_set sc bp schema_file schema t2 = Inr a2" by simp_all
    have "a1\<lparr>prepared_at := x, subscenarios_detected := subscenarios_detected a1\<rparr> =
          a2\<lparr>prepared_at := x, subscenarios_detected := subscenarios_detected a1\<rparr>"
      by (rule build_task_same_but(1)[OF p q])
    moreover have "subscenarios_detected a2 = subscenarios_detected a1"
      using build_task_same_but(2,3)[OF p q] by simp
    ultimately show "a1\<lparr>prepared_at := x\<rparr> = a2\<lparr>prepared_at := x\<rparr>"
      by (metis task_artifact.update_convs(8) task_artifact.surjective
          task_artifact.update_convs(11))
  qed
  have 2: "set_order_ok ls1 \<and> set_order_ok ls2
      \<and> build_task ls1 sc bp schema_file schema t1 = Inr b1
      \<and> build_task ls2 sc bp schema_file schema t2 = Inr b2
      \<longrightarrow> b1\<lparr>prepared_at := x, subscenarios_detected := y\<rparr> =
            b2\<lparr>prepared_at := x, subscenarios_detected := y\<rparr>
          \<and> set (subscenarios_detected b1) = set (subscenarios_detected b2)
          \<and> distinct (subscenarios_detected b1) \<and> distinct (subscenarios_detected b2)"
  proof
    assume h: "set_order_ok ls1 \<and> set_order_ok ls2
      \<and> build_task ls1 sc bp schema_file schema t1 = Inr b1
      \<and> build_task ls2 sc bp schema_file schema t2 = Inr b2"
    then have o1: "set_order_ok ls1" and o2: "set_order_ok ls2"
      and p: "build_task ls1 sc bp schema_file schema t1 = Inr b1"
      and q: "build_task ls2 sc bp schema_file schema t2 = Inr b2" by simp_all
    note s = build_task_same_but[OF p q]
    show "b1\<lparr>prepared_at := x, subscenarios_detected := y\<rparr> =
            b2\<lparr>prepared_at := x, subscenarios_detected := y\<rparr>
          \<and> set (subscenarios_detected b1) = set (subscenarios_detected b2)
          \<and> distinct (subscenarios_detected b1) \<and> distinct (subscenarios_detected b2)"
      using s(1)[where x = x and y = y] detect_subscenarios_set[OF o1, of bp] detect_subscenarios_set[OF o2, of bp]
      by (simp only: s(2,3))
  qed
  have 3: "build_task ls1 sc bp schema_file schema t1 = Inl e \<longleftrightarrow>
       build_task ls2 sc bp schema_file schema t2 = Inl e"
    by (simp only: build_task_error)
  from 1 2 3 show ?thesis by (intro conjI)
qed

theorem build_task_repeatable_witness:
  "build_task remdups scenario_1 bp_two_calls None None ''t1'' =
     Inr (task_two_calls [''1'', ''2''] ''t1'')
   \<and> build_task remdups scenario_1 bp_two_calls None None ''t2'' =
     Inr (task_two_calls [''1'', ''2''] ''t2'')
   \<and> (task_two_calls [''1'', ''2''] ''t1'')\<lparr>prepared_at := ''x''\<rparr> =
     (task_two_calls [''1'', ''2''] ''t2'')\<lparr>prepared_at := ''x''\<rparr>
   \<and> set_order_ok remdups \<and> set_order_ok (rev \<circ> remdups)
   \<and> build_task (rev \<circ> remdups) scenario_1 bp_two_calls None None ''t2'' =
     Inr (task_two_calls [''2'', ''1''] ''t2'')
   \<and> set (subscenarios_detected (task_two_calls [''1'', ''2''] ''t1'')) =
     set (subscenarios_detected (task_two_calls [''2'', ''1''] ''t2''))"
proof -
  have a: "build_task remdups scenario_1 bp_two_calls None None ''t1'' =
     Inr (task_two_calls [''1'', ''2''] ''t1'')"
    by (simp add: build_task_bp_two_calls)
  have b: "build_task remdups scenario_1 bp_two_calls None None ''t2'' =
     Inr (task_two_calls [''1'', ''2''] ''t2'')"
    by (simp add: build_task_bp_two_calls)
  have r: "build_task (rev \<circ> remdups) scenario_1 bp_two_calls None None ''t2'' =
     Inr (task_two_calls [''2'', ''1''] ''t2'')"
    by (simp add: build_task_bp_two_calls)
  note c = build_task_repeatable[THEN conjunct1, rule_format, OF conjI, OF a b]
  note o1 = set_order_ok_remdups and o2 = set_order_ok_rev_remdups
  note s = build_task_repeatable[THEN conjunct2, THEN conjunct1, rule_format,
      OF conjI, OF o1 conjI, OF o2 conjI, OF a r]
  note d = s[THEN conjunct2, THEN conjunct1]
  from a b c o1 o2 r d show ?thesis by (intro conjI)
qed

end
